theory Spec2Isabelle
  imports Main "HOL-Library.Sublist"
begin

section \<open>Values of the host language\<close>

text \<open>
  A property read from a host object is either missing (\<open>undefined\<close> or \<open>null\<close>, both
  falsy), a string, or some other truthy value (a number, an object) that has no string
  methods. Strings are lists of code units; the model covers code units below 256.
\<close>

datatype jsval = Undefined | Str string | Other

definition truthy :: "jsval \<Rightarrow> bool" where
  "truthy v = (case v of Undefined \<Rightarrow> False | Str s \<Rightarrow> s \<noteq> [] | Other \<Rightarrow> True)"

text \<open>The exceptions the modelled code can raise or receive.\<close>

datatype error =
    TypeError
  | RangeError
  | FetchFailed
  | HttpError nat
  | ConfigurationMissing
  | NotificationUrlRequired
  | InvalidNotificationUrl
  | ServicesNotInitialized

text \<open>
  \<open>String.prototype.toLowerCase\<close> on code units below 256: the letters A to Z and the
  Latin-1 capitals (192 to 222 without the multiplication sign 215) move up by 32.
\<close>

definition toLowerCase_char :: "char \<Rightarrow> char" where
  "toLowerCase_char c =
     (let n = (of_char c :: nat) in
      if (65 \<le> n \<and> n \<le> 90) \<or> (192 \<le> n \<and> n \<le> 222 \<and> n \<noteq> 215)
      then char_of (n + 32) else c)"

definition toLowerCase :: "string \<Rightarrow> string" where
  "toLowerCase s = map toLowerCase_char s"

definition startsWith :: "string \<Rightarrow> string \<Rightarrow> bool" where
  "startsWith s p = (take (length p) s = p)"

definition endsWith :: "string \<Rightarrow> string \<Rightarrow> bool" where
  "endsWith s t = (length t \<le> length s \<and> drop (length s - length t) s = t)"

text \<open>\<open>s.split('@')[0]\<close>: the part of \<open>s\<close> before the first \<open>@\<close> (all of it when there is none).\<close>

definition split_at_first :: "string \<Rightarrow> string" where
  "split_at_first s = takeWhile (\<lambda>c. c \<noteq> CHR ''@'') s"

section \<open>OutlookEventService: classification of attendees\<close>

text \<open>
  The three shapes of regular expression in \<open>roomPatterns\<close>, all with the flag \<open>i\<close>:
  \<open>/^p/i\<close>, \<open>/^p\d+/i\<close> and \<open>/p$/i\<close> for a lower-case ASCII literal \<open>p\<close>. Matching without
  regard to case is matching the lower-cased subject against \<open>p\<close>; \<open>\d\<close> is an ASCII digit
  and \<open>$\<close> (no flag \<open>m\<close>) is the end of the subject.
\<close>

datatype pattern = Prefix string | PrefixDigits string | Suffix string

definition isDigit :: "char \<Rightarrow> bool" where
  "isDigit c = (c \<in> set ''0123456789'')"

fun test :: "pattern \<Rightarrow> string \<Rightarrow> bool" where
  "test (Prefix p) s = startsWith (toLowerCase s) p"
| "test (PrefixDigits p) s =
     (startsWith (toLowerCase s) p \<and>
      (case drop (length p) s of [] \<Rightarrow> False | c # _ \<Rightarrow> isDigit c))"
| "test (Suffix p) s = endsWith (toLowerCase s) p"

definition roomPatterns :: "pattern list" where
  "roomPatterns =
     [PrefixDigits ''room'', Prefix ''conference'', Prefix ''meeting'', Prefix ''boardroom'',
      Prefix ''conf-'', Suffix ''-room'', Prefix ''resource-'']"

definition isRoomEmail :: "string \<Rightarrow> bool" where
  "isRoomEmail email = list_ex (\<lambda>pattern. test pattern email) roomPatterns"

text \<open>
  An attendee as the host hands it over. The code reads \<open>emailAddress\<close> and \<open>name\<close>.
\<close>

record attendee =
  emailAddress :: jsval
  name :: jsval

text \<open>
  The configuration object is loaded by a service outside the modelled sources; it is a
  parameter here. Optional members are options.
\<close>

record outlookConfig =
  internalDomains :: "string list option"
  excludeRooms :: "bool option"

datatype url_value = NoUrl | BadUrl string | GoodUrl string

record powerAutomateConfig =
  notificationUrl :: url_value
  timeout :: "nat option"

record config =
  outlook :: "outlookConfig option"
  powerAutomate :: "powerAutomateConfig option"

text \<open>\<open>a || b\<close> for a missing or boolean \<open>a\<close>: \<open>b\<close> unless \<open>a\<close> is \<open>true\<close>.\<close>

definition js_or :: "bool option \<Rightarrow> bool \<Rightarrow> bool" where
  "js_or a b = (case a of Some True \<Rightarrow> True | _ \<Rightarrow> b)"

text \<open>\<open>config.outlook?.internalDomains || []\<close> and \<open>config.outlook?.excludeRooms || true\<close>.\<close>

definition config_internalDomains :: "config \<Rightarrow> string list" where
  "config_internalDomains cfg =
     (case outlook cfg of
        None \<Rightarrow> []
      | Some oc \<Rightarrow> (case internalDomains oc of None \<Rightarrow> [] | Some ds \<Rightarrow> ds))"

definition config_excludeRooms :: "config \<Rightarrow> bool" where
  "config_excludeRooms cfg =
     js_or (case outlook cfg of None \<Rightarrow> None | Some oc \<Rightarrow> excludeRooms oc) True"

text \<open>
  \<open>Array.prototype.filter\<close> with a callback that may throw: the elements are visited in
  order and the first exception ends the call.
\<close>

fun filter_js :: "('a \<Rightarrow> error + bool) \<Rightarrow> 'a list \<Rightarrow> error + 'a list" where
  "filter_js f [] = Inr []"
| "filter_js f (x # xs) =
     (case f x of
        Inl e \<Rightarrow> Inl e
      | Inr b \<Rightarrow>
          (case filter_js f xs of
             Inl e \<Rightarrow> Inl e
           | Inr ys \<Rightarrow> Inr (if b then x # ys else ys)))"

text \<open>
  The callback of \<open>filterExternalUsers\<close>. \<open>toLowerCase\<close> on a truthy value that is no
  string raises a \<open>TypeError\<close>.
\<close>

definition keepAttendee :: "string list \<Rightarrow> bool \<Rightarrow> attendee \<Rightarrow> error + bool" where
  "keepAttendee domains excludeRms a =
     (if \<not> truthy (emailAddress a) then Inr False
      else
        (case emailAddress a of
           Str s \<Rightarrow>
             (let email = toLowerCase s in
              if excludeRms \<and> isRoomEmail email then Inr False
              else
                Inr (\<not> list_ex (\<lambda>domain. endsWith email (CHR ''@'' # toLowerCase domain))
                           domains))
         | _ \<Rightarrow> Inl TypeError))"

text \<open>\<open>filterExternalUsers\<close>: the \<open>try\<close> block returns the filtered array, the \<open>catch\<close> block \<open>[]\<close>.\<close>

definition filterExternalUsers :: "config \<Rightarrow> attendee list \<Rightarrow> attendee list" where
  "filterExternalUsers cfg attendees =
     (case filter_js (keepAttendee (config_internalDomains cfg) (config_excludeRooms cfg))
             attendees of
        Inl e \<Rightarrow> []
      | Inr external \<Rightarrow> external)"

section \<open>Retry with exponential backoff\<close>

text \<open>
  \<open>executeWithRetry\<close> has the same body in both remote clients; they differ in
  \<open>retryConfig\<close>. The operation is a state transformer that returns a value or raises;
  awaiting the timer is a state transformer too.
\<close>

record retryConfig =
  maxRetries :: nat
  retryDelay :: nat
  backoffMultiplier :: nat

definition SharePointService_retryConfig :: retryConfig where
  "SharePointService_retryConfig =
     \<lparr>maxRetries = 3, retryDelay = 1000, backoffMultiplier = 2\<rparr>"

definition PowerAutomateService_retryConfig :: retryConfig where
  "PowerAutomateService_retryConfig =
     \<lparr>maxRetries = 3, retryDelay = 2000, backoffMultiplier = 2\<rparr>"

function executeWithRetry ::
  "retryConfig \<Rightarrow> (nat \<Rightarrow> 's \<Rightarrow> 's) \<Rightarrow> ('s \<Rightarrow> (error + 'a) \<times> 's) \<Rightarrow> nat \<Rightarrow> 's
     \<Rightarrow> (error + 'a) \<times> 's" where
  "executeWithRetry rc setTimeout operation retryCount s =
     (case operation s of
        (Inr v, s1) \<Rightarrow> (Inr v, s1)
      | (Inl e, s1) \<Rightarrow>
          if retryCount < maxRetries rc then
            (let delay = retryDelay rc * backoffMultiplier rc ^ retryCount
             in executeWithRetry rc setTimeout operation (retryCount + 1) (setTimeout delay s1))
          else (Inl e, s1))"
  by pat_completeness auto
termination
  by (relation "measure (\<lambda>(rc, t, operation, retryCount, s). maxRetries rc - retryCount)") auto

declare executeWithRetry.simps [simp del]

text \<open>
  Observation of a run, for stating how often the operation is invoked and which delays
  are awaited: the state is paired with the list of the results of the invocations so far
  and the list of the delays awaited so far.
\<close>

definition observed ::
  "('s \<Rightarrow> (error + 'a) \<times> 's) \<Rightarrow> 's \<times> (error + 'a) list \<times> nat list
     \<Rightarrow> (error + 'a) \<times> ('s \<times> (error + 'a) list \<times> nat list)" where
  "observed operation =
     (\<lambda>(s, rs, ds). case operation s of (r, s1) \<Rightarrow> (r, (s1, rs @ [r], ds)))"

definition observedTimer ::
  "(nat \<Rightarrow> 's \<Rightarrow> 's) \<Rightarrow> nat \<Rightarrow> 's \<times> (error + 'a) list \<times> nat list
     \<Rightarrow> 's \<times> (error + 'a) list \<times> nat list" where
  "observedTimer timer delay = (\<lambda>(s, rs, ds). (timer delay s, rs, ds @ [delay]))"

section \<open>The remote list store and the notification endpoint\<close>

text \<open>
  The record that \<open>createVisitorRecord\<close> builds and posts, and a stored list item: the
  record with the key the store gave it. \<open>StartTime\<close>, \<open>EndTime\<close>, \<open>CreatedDate\<close> and
  \<open>ModifiedDate\<close> hold the instant that the ISO string denotes (\<open>None\<close> for \<open>null\<close>).
\<close>

datatype status = Scheduled | Completed | Cancelled

record itemData =
  MeetingId :: string
  MeetingTitle :: string
  VisitorEmail :: jsval
  VisitorName :: jsval
  StartTime :: "nat option"
  EndTime :: "nat option"
  Status :: status
  CreatedDate :: "nat option"
  ModifiedDate :: "nat option"

record listItem =
  ItemId :: nat
  columns :: itemData

text \<open>
  The JSON document posted to the notification endpoint: \<open>meetingId\<close>, \<open>meetingTitle\<close>,
  \<open>visitorEmail\<close>, \<open>visitorName\<close>, \<open>startTime\<close>, \<open>endTime\<close>, \<open>notificationType\<close>, \<open>timestamp\<close>
  (the member \<open>source\<close> is a constant).
\<close>

datatype payload =
  Payload string string jsval jsval "nat option" "nat option" string nat

datatype request =
    GetItemsByMeetingId string
  | CreateItem itemData
  | DeleteItem nat
  | GetStatistics
  | PostNotification payload

datatype body = NoBody | ItemList "listItem list" | OneItem listItem

text \<open>\<open>fetch\<close> either rejects (no response) or resolves to a response with a status.\<close>

datatype response = Rejected | Response nat body

datatype fault = NetworkDown | Unauthorized | Throttled | ServerError | ServiceUnavailable

fun fault_response :: "fault \<Rightarrow> response" where
  "fault_response NetworkDown = Rejected"
| "fault_response Unauthorized = Response 401 NoBody"
| "fault_response Throttled = Response 429 NoBody"
| "fault_response ServerError = Response 500 NoBody"
| "fault_response ServiceUnavailable = Response 503 NoBody"

datatype event = Sent request response | Waited nat

text \<open>
  The world outside the add-in: the items of the list, the next key the store hands out,
  the clock, the faults that hit the coming requests (one entry for each request, \<open>None\<close>
  or no entry for a request that is served) and the trace of requests and timer waits.
  A request hit by a fault leaves the list as it is. Token and request-digest
  acquisition are folded into the request; every request is answered or rejected.
\<close>

record world =
  items :: "listItem list"
  nextId :: nat
  clock :: nat
  seed :: nat
  faults :: "fault option list"
  trace :: "event list"

text \<open>
  A request that is served: a query is answered with the items of the meeting, a create
  with status 201 and the stored item (its key is \<open>nextId\<close>), a delete with status 200, or
  with 404 when no item has the key. The answer to the statistics query is only displayed
  (its date filter is not modelled). The notification endpoint accepts every document.
\<close>

fun serve :: "request \<Rightarrow> world \<Rightarrow> response \<times> world" where
  "serve (GetItemsByMeetingId m) w =
     (Response 200 (ItemList (filter (\<lambda>r. MeetingId (columns r) = m) (items w))), w)"
| "serve (CreateItem d) w =
     (let r = \<lparr>ItemId = nextId w, columns = d\<rparr>
      in (Response 201 (OneItem r), w\<lparr>items := items w @ [r], nextId := nextId w + 1\<rparr>))"
| "serve (DeleteItem i) w =
     (if i \<in> ItemId ` set (items w)
      then (Response 200 NoBody, w\<lparr>items := filter (\<lambda>r. ItemId r \<noteq> i) (items w)\<rparr>)
      else (Response 404 NoBody, w))"
| "serve GetStatistics w = (Response 200 (ItemList (items w)), w)"
| "serve (PostNotification p) w = (Response 202 NoBody, w)"

definition fetch :: "request \<Rightarrow> world \<Rightarrow> response \<times> world" where
  "fetch rq w =
     (case (case faults w of Some f # _ \<Rightarrow> (fault_response f, w) | _ \<Rightarrow> serve rq w) of
        (rs, w1) \<Rightarrow> (rs, w1\<lparr>faults := tl (faults w), trace := trace w @ [Sent rq rs]\<rparr>))"

text \<open>\<open>response.ok\<close>.\<close>

definition ok :: "nat \<Rightarrow> bool" where
  "ok st = (200 \<le> st \<and> st \<le> 299)"

text \<open>\<open>await new Promise(resolve => setTimeout(resolve, delay))\<close>.\<close>

definition sleep :: "nat \<Rightarrow> world \<Rightarrow> world" where
  "sleep delay w = w\<lparr>clock := clock w + delay, trace := trace w @ [Waited delay]\<rparr>"

text \<open>The requests of a trace, in order.\<close>

fun requests :: "event list \<Rightarrow> request list" where
  "requests [] = []"
| "requests (Sent rq rs # es) = rq # requests es"
| "requests (Waited d # es) = requests es"

text \<open>The requests issued between two states of the world.\<close>

definition issued :: "world \<Rightarrow> world \<Rightarrow> request list" where
  "issued w w' = requests (drop (length (trace w)) (trace w'))"

section \<open>SharePointService\<close>

text \<open>
  Each method wraps one request in \<open>executeWithRetry\<close>. The wrapped operation is split
  into the request and the handling of its response.
\<close>

definition createListItem_response :: "response \<Rightarrow> error + listItem" where
  "createListItem_response rs =
     (case rs of
        Rejected \<Rightarrow> Inl FetchFailed
      | Response st b \<Rightarrow>
          if \<not> ok st then Inl (HttpError st)
          else (case b of OneItem r \<Rightarrow> Inr r | _ \<Rightarrow> Inl TypeError))"

definition createListItem_operation :: "itemData \<Rightarrow> world \<Rightarrow> (error + listItem) \<times> world" where
  "createListItem_operation d w =
     (case fetch (CreateItem d) w of (rs, w1) \<Rightarrow> (createListItem_response rs, w1))"

definition createListItem :: "itemData \<Rightarrow> world \<Rightarrow> (error + listItem) \<times> world" where
  "createListItem d w =
     executeWithRetry SharePointService_retryConfig sleep (createListItem_operation d) 0 w"

definition getVisitorRecordsByMeetingId_response :: "response \<Rightarrow> error + listItem list" where
  "getVisitorRecordsByMeetingId_response rs =
     (case rs of
        Rejected \<Rightarrow> Inl FetchFailed
      | Response st b \<Rightarrow>
          if \<not> ok st then Inl (HttpError st)
          else (case b of ItemList rs \<Rightarrow> Inr rs | _ \<Rightarrow> Inl TypeError))"

definition getVisitorRecordsByMeetingId_operation ::
  "string \<Rightarrow> world \<Rightarrow> (error + listItem list) \<times> world" where
  "getVisitorRecordsByMeetingId_operation m w =
     (case fetch (GetItemsByMeetingId m) w of
        (rs, w1) \<Rightarrow> (getVisitorRecordsByMeetingId_response rs, w1))"

definition getVisitorRecordsByMeetingId ::
  "string \<Rightarrow> world \<Rightarrow> (error + listItem list) \<times> world" where
  "getVisitorRecordsByMeetingId m w =
     executeWithRetry SharePointService_retryConfig sleep
       (getVisitorRecordsByMeetingId_operation m) 0 w"

text \<open>
  \<open>deleteListItem\<close>: a status that is neither a success nor 404 raises; otherwise the
  result is \<open>response.ok\<close>.
\<close>

definition deleteListItem_response :: "response \<Rightarrow> error + bool" where
  "deleteListItem_response rs =
     (case rs of
        Rejected \<Rightarrow> Inl FetchFailed
      | Response st b \<Rightarrow> if \<not> ok st \<and> st \<noteq> 404 then Inl (HttpError st) else Inr (ok st))"

definition deleteListItem_operation :: "nat \<Rightarrow> world \<Rightarrow> (error + bool) \<times> world" where
  "deleteListItem_operation itemId w =
     (case fetch (DeleteItem itemId) w of (rs, w1) \<Rightarrow> (deleteListItem_response rs, w1))"

definition deleteListItem :: "nat \<Rightarrow> world \<Rightarrow> (error + bool) \<times> world" where
  "deleteListItem itemId w =
     executeWithRetry SharePointService_retryConfig sleep (deleteListItem_operation itemId) 0 w"

text \<open>
  A date handed to \<open>formatDateTime\<close>: missing, an instant (a \<open>Date\<close> or a string that
  parses), or invalid (\<open>toISOString\<close> raises a \<open>RangeError\<close>).
\<close>

datatype js_date = NoDate | Instant nat | InvalidDate

definition formatDateTime :: "js_date \<Rightarrow> error + nat option" where
  "formatDateTime date =
     (case date of
        NoDate \<Rightarrow> Inr None
      | Instant t \<Rightarrow> Inr (Some t)
      | InvalidDate \<Rightarrow> Inl RangeError)"

text \<open>\<open>user.name || user.emailAddress.split('@')[0]\<close>.\<close>

definition visitorNameOf :: "attendee \<Rightarrow> error + jsval" where
  "visitorNameOf user =
     (if truthy (name user) then Inr (name user)
      else (case emailAddress user of
              Str s \<Rightarrow> Inr (Str (split_at_first s))
            | _ \<Rightarrow> Inl TypeError))"

text \<open>The object literal in the loop of \<open>createVisitorRecord\<close>, members in source order.\<close>

definition visitorRecord ::
  "string \<Rightarrow> string \<Rightarrow> attendee \<Rightarrow> js_date \<Rightarrow> js_date \<Rightarrow> nat \<Rightarrow> error + itemData" where
  "visitorRecord meetingId meetingTitle user startTime endTime now =
     (case visitorNameOf user of
        Inl e \<Rightarrow> Inl e
      | Inr vname \<Rightarrow>
          (case formatDateTime startTime of
             Inl e \<Rightarrow> Inl e
           | Inr st \<Rightarrow>
               (case formatDateTime endTime of
                  Inl e \<Rightarrow> Inl e
                | Inr en \<Rightarrow>
                    Inr \<lparr>MeetingId = meetingId, MeetingTitle = meetingTitle,
                         VisitorEmail = emailAddress user, VisitorName = vname,
                         StartTime = st, EndTime = en, Status = Scheduled,
                         CreatedDate = Some now, ModifiedDate = Some now\<rparr>)))"

text \<open>The loop of \<open>createVisitorRecord\<close>; \<open>records\<close> is the array built so far.\<close>

fun createVisitorRecord_loop ::
  "string \<Rightarrow> string \<Rightarrow> js_date \<Rightarrow> js_date \<Rightarrow> attendee list \<Rightarrow> listItem list \<Rightarrow> world
     \<Rightarrow> (error + listItem list) \<times> world" where
  "createVisitorRecord_loop meetingId meetingTitle startTime endTime [] records w =
     (Inr records, w)"
| "createVisitorRecord_loop meetingId meetingTitle startTime endTime (user # users) records w =
     (case visitorRecord meetingId meetingTitle user startTime endTime (clock w) of
        Inl e \<Rightarrow> (Inl e, w)
      | Inr item \<Rightarrow>
          (case createListItem item w of
             (Inl e, w1) \<Rightarrow> (Inl e, w1)
           | (Inr createdRecord, w1) \<Rightarrow>
               createVisitorRecord_loop meetingId meetingTitle startTime endTime users
                 (records @ [createdRecord]) w1))"

definition createVisitorRecord ::
  "string \<Rightarrow> string \<Rightarrow> attendee list \<Rightarrow> js_date \<Rightarrow> js_date \<Rightarrow> world
     \<Rightarrow> (error + listItem list) \<times> world" where
  "createVisitorRecord meetingId meetingTitle externalUsers startTime endTime w =
     createVisitorRecord_loop meetingId meetingTitle startTime endTime externalUsers [] w"

text \<open>
  The loop \<open>for (const record of existingRecords) await this.deleteListItem(record.Id)\<close>
  of \<open>updateVisitorRecords\<close> and \<open>deleteVisitorRecords\<close>.
\<close>

fun deleteListItems :: "listItem list \<Rightarrow> world \<Rightarrow> (error + unit) \<times> world" where
  "deleteListItems [] w = (Inr (), w)"
| "deleteListItems (r # rs) w =
     (case deleteListItem (ItemId r) w of
        (Inl e, w1) \<Rightarrow> (Inl e, w1)
      | (Inr b, w1) \<Rightarrow> deleteListItems rs w1)"

definition updateVisitorRecords ::
  "string \<Rightarrow> string \<Rightarrow> attendee list \<Rightarrow> js_date \<Rightarrow> js_date \<Rightarrow> world
     \<Rightarrow> (error + listItem list) \<times> world" where
  "updateVisitorRecords meetingId meetingTitle externalUsers startTime endTime w =
     (case getVisitorRecordsByMeetingId meetingId w of
        (Inl e, w1) \<Rightarrow> (Inl e, w1)
      | (Inr existingRecords, w1) \<Rightarrow>
          (case deleteListItems existingRecords w1 of
             (Inl e, w2) \<Rightarrow> (Inl e, w2)
           | (Inr u, w2) \<Rightarrow>
               if length externalUsers > 0
               then createVisitorRecord meetingId meetingTitle externalUsers startTime endTime w2
               else (Inr [], w2)))"

definition deleteVisitorRecords :: "string \<Rightarrow> world \<Rightarrow> (error + nat) \<times> world" where
  "deleteVisitorRecords meetingId w =
     (case getVisitorRecordsByMeetingId meetingId w of
        (Inl e, w1) \<Rightarrow> (Inl e, w1)
      | (Inr existingRecords, w1) \<Rightarrow>
          (case deleteListItems existingRecords w1 of
             (Inl e, w2) \<Rightarrow> (Inl e, w2)
           | (Inr u, w2) \<Rightarrow> (Inr (length existingRecords), w2)))"

section \<open>PowerAutomateService\<close>

text \<open>
  \<open>initialize\<close>, as a function of the flag \<open>isInitialized\<close>: the new value of the flag, or
  the error raised. The URL parser of the platform is not part of the sources; its verdict
  is the constructor of \<open>url_value\<close>.
\<close>

definition PowerAutomateService_initialize :: "config \<Rightarrow> bool \<Rightarrow> error + bool" where
  "PowerAutomateService_initialize cfg isInitialized =
     (if isInitialized then Inr True
      else
        (case powerAutomate cfg of
           None \<Rightarrow> Inl ConfigurationMissing
         | Some pa \<Rightarrow>
             (case notificationUrl pa of
                NoUrl \<Rightarrow> Inl NotificationUrlRequired
              | BadUrl u \<Rightarrow> Inl InvalidNotificationUrl
              | GoodUrl u \<Rightarrow> Inr True)))"

text \<open>
  The value \<open>sendSingleNotification\<close> returns (its member \<open>success\<close> is the constant \<open>true\<close>,
  its member \<open>response\<close> is the text of the answer and is not modelled).
\<close>

record notification =
  notificationId :: nat
  timestamp :: nat

definition sendSingleNotification_response :: "response \<Rightarrow> error + unit" where
  "sendSingleNotification_response rs =
     (case rs of
        Rejected \<Rightarrow> Inl FetchFailed
      | Response st b \<Rightarrow> if \<not> ok st then Inl (HttpError st) else Inr ())"

text \<open>
  The operation wrapped by \<open>sendSingleNotification\<close>. Reading \<open>config.timeout\<close> from a
  missing \<open>powerAutomate\<close> section raises a \<open>TypeError\<close>. The identifier of the
  notification is drawn from \<open>seed\<close>. Every request is answered or rejected, so the abort
  timer does not fire; parsing the answer cannot raise (its own \<open>catch\<close> block).
\<close>

definition sendSingleNotification_operation ::
  "config \<Rightarrow> string \<Rightarrow> string \<Rightarrow> jsval \<Rightarrow> jsval \<Rightarrow> js_date \<Rightarrow> js_date \<Rightarrow> string \<Rightarrow> world
     \<Rightarrow> (error + notification) \<times> world" where
  "sendSingleNotification_operation cfg meetingId meetingTitle visitorEmail visitorName
       startTime endTime notificationType w =
     (case powerAutomate cfg of
        None \<Rightarrow> (Inl TypeError, w)
      | Some pa \<Rightarrow>
          (case formatDateTime startTime of
             Inl e \<Rightarrow> (Inl e, w)
           | Inr st \<Rightarrow>
               (case formatDateTime endTime of
                  Inl e \<Rightarrow> (Inl e, w)
                | Inr en \<Rightarrow>
                    (case fetch (PostNotification
                            (Payload meetingId meetingTitle visitorEmail visitorName st en
                               notificationType (clock w))) w of
                       (rs, w1) \<Rightarrow>
                         (case sendSingleNotification_response rs of
                            Inl e \<Rightarrow> (Inl e, w1)
                          | Inr u \<Rightarrow>
                              (Inr \<lparr>notificationId = seed w1, timestamp = clock w1\<rparr>,
                               w1\<lparr>seed := seed w1 + 1\<rparr>))))))"

definition sendSingleNotification ::
  "config \<Rightarrow> string \<Rightarrow> string \<Rightarrow> jsval \<Rightarrow> jsval \<Rightarrow> js_date \<Rightarrow> js_date \<Rightarrow> string \<Rightarrow> world
     \<Rightarrow> (error + notification) \<times> world" where
  "sendSingleNotification cfg meetingId meetingTitle visitorEmail visitorName
       startTime endTime notificationType w =
     executeWithRetry PowerAutomateService_retryConfig sleep
       (sendSingleNotification_operation cfg meetingId meetingTitle visitorEmail visitorName
          startTime endTime notificationType) 0 w"

text \<open>
  An entry of \<open>notifications\<close> (\<open>delivered\<close> is its member \<open>success\<close>, \<open>failure\<close> its member
  \<open>error\<close>) and the value \<open>sendVisitorNotification\<close> returns; members that a branch leaves
  out are \<open>None\<close>.
\<close>

record notificationEntry =
  email :: jsval
  delivered :: bool
  entryId :: "nat option"
  failure :: "error option"

record notificationResult =
  success :: bool
  notificationsSent :: nat
  failures :: "nat option"
  details :: "notificationEntry list option"

text \<open>
  The body of the loop of \<open>sendVisitorNotification\<close> for one user: the \<open>try\<close> block
  (the argument object is built, then sent) and its \<open>catch\<close> block.
\<close>

definition notifyUser ::
  "config \<Rightarrow> string \<Rightarrow> string \<Rightarrow> js_date \<Rightarrow> js_date \<Rightarrow> string \<Rightarrow> attendee \<Rightarrow> world
     \<Rightarrow> notificationEntry \<times> world" where
  "notifyUser cfg meetingId meetingTitle startTime endTime notificationType user w =
     (case (case visitorNameOf user of
              Inl e \<Rightarrow> (Inl e, w)
            | Inr vname \<Rightarrow>
                sendSingleNotification cfg meetingId meetingTitle (emailAddress user) vname
                  startTime endTime notificationType w) of
        (Inr n, w1) \<Rightarrow>
          (\<lparr>email = emailAddress user, delivered = True,
            entryId = Some (notificationId n), failure = None\<rparr>, w1)
      | (Inl e, w1) \<Rightarrow>
          (\<lparr>email = emailAddress user, delivered = False,
            entryId = None, failure = Some e\<rparr>, w1))"

fun sendVisitorNotification_loop ::
  "config \<Rightarrow> string \<Rightarrow> string \<Rightarrow> js_date \<Rightarrow> js_date \<Rightarrow> string \<Rightarrow> attendee list
     \<Rightarrow> notificationEntry list \<Rightarrow> world \<Rightarrow> notificationEntry list \<times> world" where
  "sendVisitorNotification_loop cfg meetingId meetingTitle startTime endTime notificationType
       [] notifications w = (notifications, w)"
| "sendVisitorNotification_loop cfg meetingId meetingTitle startTime endTime notificationType
       (user # users) notifications w =
     (case notifyUser cfg meetingId meetingTitle startTime endTime notificationType user w of
        (entry, w1) \<Rightarrow>
          sendVisitorNotification_loop cfg meetingId meetingTitle startTime endTime
            notificationType users (notifications @ [entry]) w1)"

text \<open>The state of the service is the flag \<open>isInitialized\<close>; it is paired with the world.\<close>

definition sendVisitorNotification ::
  "config \<Rightarrow> string \<Rightarrow> string \<Rightarrow> attendee list \<Rightarrow> js_date \<Rightarrow> js_date \<Rightarrow> string
     \<Rightarrow> bool \<times> world \<Rightarrow> (error + notificationResult) \<times> (bool \<times> world)" where
  "sendVisitorNotification cfg meetingId meetingTitle externalUsers startTime endTime
       notificationType =
     (\<lambda>(isInitialized, w).
        case PowerAutomateService_initialize cfg isInitialized of
          Inl e \<Rightarrow> (Inl e, (isInitialized, w))
        | Inr initialized \<Rightarrow>
            if length externalUsers = 0
            then (Inr \<lparr>success = True, notificationsSent = 0, failures = None, details = None\<rparr>,
                  (initialized, w))
            else
              (case sendVisitorNotification_loop cfg meetingId meetingTitle startTime endTime
                      notificationType externalUsers [] w of
                 (notifications, w1) \<Rightarrow>
                   (let successCount = length (filter (\<lambda>n. delivered n) notifications);
                        failureCount = length (filter (\<lambda>n. \<not> delivered n) notifications)
                    in (Inr \<lparr>success = (failureCount = 0), notificationsSent = successCount,
                             failures = Some failureCount, details = Some notifications\<rparr>,
                        (initialized, w1)))))"

text \<open>The addresses that the notification requests of a list of requests were sent for.\<close>

fun notified :: "request list \<Rightarrow> jsval list" where
  "notified [] = []"
| "notified (PostNotification (Payload m t visitorEmail vn st en ty ts) # rqs) =
     visitorEmail # notified rqs"
| "notified (rq # rqs) = notified rqs"


section \<open>Event data and the handlers of OutlookEventService\<close>

text \<open>
  The appointment as the host reports it: \<open>itemId\<close> and the results of the \<open>getAsync\<close>
  calls (\<open>None\<close> for a call that did not succeed, which leaves the default in place). The
  attendee lists arrive in the order required, optional.
\<close>

record appointmentItem =
  itemId :: "string option"
  subjectResult :: "string option"
  startResult :: "js_date option"
  endResult :: "js_date option"
  requiredAttendeesResult :: "attendee list option"
  optionalAttendeesResult :: "attendee list option"

record eventData =
  meetingId :: string
  subject :: string
  startTime :: js_date
  endTime :: js_date
  externalUsers :: "attendee list"
  allAttendees :: "attendee list"


section \<open>TaskpaneApp\<close>

text \<open>The calls of \<open>showMessage\<close>, by the message shown.\<close>

datatype notice =
    MsgBusy
  | MsgNoExternalUsers
  | MsgDone nat
  | MsgPartial
  | MsgRecordsUpdated
  | MsgError error

record taskpaneApp =
  isProcessing :: bool
  currentMeetingData :: "eventData option"
  loading :: bool
  messages :: "notice list"
  powerAutomateService_isInitialized :: bool

definition showMessage :: "notice \<Rightarrow> taskpaneApp \<Rightarrow> taskpaneApp" where
  "showMessage n a = a\<lparr>messages := messages a @ [n]\<rparr>"

text \<open>
  \<open>processVisitors\<close> is asynchronous. It is modelled in three pieces: what runs at the
  call, up to the first \<open>await\<close> (\<open>processVisitors_enter\<close>), what runs from there to the end
  of the \<open>try\<close> and \<open>catch\<close> blocks (\<open>processVisitors_body\<close>), and the \<open>finally\<close> block. An
  early \<open>return\<close> inside \<open>try\<close> runs the \<open>finally\<close> block too.
\<close>

definition processVisitors_finally :: "taskpaneApp \<Rightarrow> taskpaneApp" where
  "processVisitors_finally a = a\<lparr>isProcessing := False, loading := False\<rparr>"

text \<open>
  The result is the data the cycle goes on with, or \<open>None\<close> when the call has returned.
\<close>

definition processVisitors_enter ::
  "eventData option \<Rightarrow> taskpaneApp \<Rightarrow> eventData option \<times> taskpaneApp" where
  "processVisitors_enter meetingData a =
     (if isProcessing a then (None, processVisitors_finally (showMessage MsgBusy a))
      else
        (let a1 = a\<lparr>isProcessing := True, loading := True\<rparr>;
             data = (case meetingData of Some d \<Rightarrow> Some d | None \<Rightarrow> currentMeetingData a1)
         in case data of
              None \<Rightarrow> (None, processVisitors_finally (showMessage MsgNoExternalUsers a1))
            | Some d \<Rightarrow>
                if length (externalUsers d) = 0
                then (None, processVisitors_finally (showMessage MsgNoExternalUsers a1))
                else (Some d, a1)))"

text \<open>
  \<open>refreshStatistics\<close> sends one query and shows counts; an error is caught inside it.
\<close>

definition refreshStatistics :: "world \<Rightarrow> world" where
  "refreshStatistics w = snd (fetch GetStatistics w)"

text \<open>The store step of \<open>processVisitors\<close>, chosen by \<open>changeType\<close>.\<close>

definition processVisitors_store ::
  "eventData \<Rightarrow> string \<Rightarrow> world \<Rightarrow> (error + unit) \<times> world" where
  "processVisitors_store d changeType w =
     (if changeType = ''manual'' \<or> changeType = ''created'' \<or> changeType = ''recipients_changed''
      then
        (case updateVisitorRecords (meetingId d) (subject d) (externalUsers d)
                (startTime d) (endTime d) w of
           (Inl e, w1) \<Rightarrow> (Inl e, w1)
         | (Inr rs, w1) \<Rightarrow> (Inr (), w1))
      else if changeType = ''deleted''
      then
        (case deleteVisitorRecords (meetingId d) w of
           (Inl e, w1) \<Rightarrow> (Inl e, w1)
         | (Inr n, w1) \<Rightarrow> (Inr (), w1))
      else (Inr (), w))"

definition processVisitors_body ::
  "config \<Rightarrow> eventData \<Rightarrow> string \<Rightarrow> taskpaneApp \<times> world \<Rightarrow> taskpaneApp \<times> world" where
  "processVisitors_body cfg d changeType =
     (\<lambda>(a, w).
        case processVisitors_store d changeType w of
          (Inl e, w1) \<Rightarrow> (showMessage (MsgError e) a, w1)
        | (Inr u, w1) \<Rightarrow>
            if length (externalUsers d) > 0
            then
              (case sendVisitorNotification cfg (meetingId d) (subject d) (externalUsers d)
                      (startTime d) (endTime d)
                      (if changeType = ''manual'' then ''created'' else changeType)
                      (powerAutomateService_isInitialized a, w1) of
                 (Inl e, (ini, w2)) \<Rightarrow>
                   (showMessage (MsgError e) (a\<lparr>powerAutomateService_isInitialized := ini\<rparr>), w2)
               | (Inr res, (ini, w2)) \<Rightarrow>
                   (showMessage
                      (if success res then MsgDone (length (externalUsers d)) else MsgPartial)
                      (a\<lparr>powerAutomateService_isInitialized := ini\<rparr>),
                    refreshStatistics w2))
            else (showMessage MsgRecordsUpdated a, refreshStatistics w1))"









section \<open>The command manualSync\<close>



section \<open>Change triggers while a cycle is in flight\<close>

text \<open>
  The add-in runs on one thread; an asynchronous call runs to its first \<open>await\<close> and is
  resumed later. A trigger runs \<open>handleOutlookEvent\<close> up to the first \<open>await\<close> of
  \<open>processVisitors\<close>; a cycle that got past it is in flight, with its data and change
  type. \<open>Finish\<close> resumes the oldest cycle in flight and runs it to its end (its requests
  are taken as one step).
\<close>

record runtime =
  taskpane :: taskpaneApp
  remote :: world
  inflight :: "(eventData \<times> string) list"

datatype stimulus = Trigger string eventData | Finish

fun step :: "config \<Rightarrow> runtime \<Rightarrow> stimulus \<Rightarrow> runtime" where
  "step cfg rt (Trigger eventType ed) =
     (if length (externalUsers ed) > 0
      then
        (case processVisitors_enter (Some ed) (taskpane rt) of
           (None, a1) \<Rightarrow> rt\<lparr>taskpane := a1\<rparr>
         | (Some d, a1) \<Rightarrow> rt\<lparr>taskpane := a1, inflight := inflight rt @ [(d, eventType)]\<rparr>)
      else rt)"
| "step cfg rt Finish =
     (case inflight rt of
        [] \<Rightarrow> rt
      | (d, changeType) # rest \<Rightarrow>
          (case processVisitors_body cfg d changeType (taskpane rt, remote rt) of
             (a2, w2) \<Rightarrow>
               rt\<lparr>taskpane := processVisitors_finally a2, remote := w2, inflight := rest\<rparr>))"

text \<open>A sequence of stimuli, from left to right.\<close>

definition run :: "config \<Rightarrow> runtime \<Rightarrow> stimulus list \<Rightarrow> runtime" where
  "run cfg rt stimuli = foldl (step cfg) rt stimuli"

text \<open>
  Between two states of the world only requests equal to \<open>rq\<close> were sent (used to
  describe what one retried operation adds to the trace).
\<close>

definition only_rq :: "request \<Rightarrow> world \<Rightarrow> world \<Rightarrow> bool" where
  "only_rq rq w w' \<longleftrightarrow> (\<exists>tr. trace w' = trace w @ tr \<and> set (requests tr) \<subseteq> {rq})"

section \<open>Lemmas and theorems\<close>

subsection \<open>Evaluation of strings\<close>

lemma char_of_lower [simp]:
  "char_of (97::nat) = CHR ''a''" "char_of (98::nat) = CHR ''b''" "char_of (99::nat) = CHR ''c''"
  "char_of (100::nat) = CHR ''d''" "char_of (101::nat) = CHR ''e''" "char_of (102::nat) = CHR ''f''"
  "char_of (103::nat) = CHR ''g''" "char_of (104::nat) = CHR ''h''" "char_of (105::nat) = CHR ''i''"
  "char_of (106::nat) = CHR ''j''" "char_of (107::nat) = CHR ''k''" "char_of (108::nat) = CHR ''l''"
  "char_of (109::nat) = CHR ''m''" "char_of (110::nat) = CHR ''n''" "char_of (111::nat) = CHR ''o''"
  "char_of (112::nat) = CHR ''p''" "char_of (113::nat) = CHR ''q''" "char_of (114::nat) = CHR ''r''"
  "char_of (115::nat) = CHR ''s''" "char_of (116::nat) = CHR ''t''" "char_of (117::nat) = CHR ''u''"
  "char_of (118::nat) = CHR ''v''" "char_of (119::nat) = CHR ''w''" "char_of (120::nat) = CHR ''x''"
  "char_of (121::nat) = CHR ''y''" "char_of (122::nat) = CHR ''z''"
  by code_simp+

lemmas eval_simps = filterExternalUsers_def keepAttendee_def config_internalDomains_def
  config_excludeRooms_def js_or_def truthy_def isRoomEmail_def roomPatterns_def
  startsWith_def endsWith_def toLowerCase_def toLowerCase_char_def isDigit_def Let_def

subsection \<open>Classification\<close>

lemma filter_js_Inr:
  "filter_js f xs = Inr ys \<Longrightarrow> ys = filter (\<lambda>x. f x = Inr True) xs"
  by (induction xs arbitrary: ys) (auto split: sum.splits if_splits)

lemma filter_js_Inl_iff:
  "(\<exists>e. filter_js f xs = Inl e) \<longleftrightarrow> (\<exists>x \<in> set xs. \<exists>e. f x = Inl e)"
  by (induction xs) (auto split: sum.splits)

lemma keepAttendee_Inl_iff:
  "(\<exists>e. keepAttendee ds ex a = Inl e) \<longleftrightarrow> emailAddress a = Other"
  by (cases "emailAddress a") (auto simp: keepAttendee_def truthy_def Let_def)

lemma keepAttendee_True:
  "keepAttendee ds ex a = Inr True \<Longrightarrow> \<exists>s. emailAddress a = Str s \<and> s \<noteq> []"
  by (cases "emailAddress a") (auto simp: keepAttendee_def truthy_def Let_def split: if_splits)

lemma filterExternalUsers_eq:
  "filterExternalUsers cfg xs = [] \<or>
   filterExternalUsers cfg xs =
     filter (\<lambda>a. keepAttendee (config_internalDomains cfg) (config_excludeRooms cfg) a = Inr True) xs"
  by (auto simp: filterExternalUsers_def split: sum.splits dest: filter_js_Inr)





lemma config_excludeRooms_always: "config_excludeRooms cfg = True"
  by (simp add: config_excludeRooms_def js_or_def split: option.splits bool.splits)

text \<open>
  Claim C5, the code at the failing input. With \<open>excludeRooms\<close> set to \<open>false\<close> in the
  configuration, an external attendee whose address matches a room pattern is still
  dropped: \<open>config.outlook?.excludeRooms || true\<close> is \<open>true\<close> for every setting.
\<close>

theorem filterExternalUsers_excludeRooms_false:
  "filterExternalUsers
     \<lparr>outlook = Some \<lparr>internalDomains = Some [''internal.com''], excludeRooms = Some False\<rparr>,
      powerAutomate = None\<rparr>
     [\<lparr>emailAddress = Str ''room1@partner.com'', name = Undefined\<rparr>] = [] \<and>
   config_excludeRooms
     \<lparr>outlook = Some \<lparr>internalDomains = Some [''internal.com''], excludeRooms = Some False\<rparr>,
      powerAutomate = None\<rparr> = True"
  by (simp add: eval_simps)

text \<open>
  Claim C10. \<open>filterExternalUsers\<close> returns a list for every attendee list (the \<open>catch\<close>
  block turns an exception into the empty list): every attendee of the result has a
  non-empty string as its address, so an attendee whose \<open>emailAddress\<close> is missing or
  empty is never in the result; and when the callback raises on some attendee (its
  address is a truthy value without \<open>toLowerCase\<close>) the result is the empty list.
\<close>

theorem filterExternalUsers_total:
  "(\<forall>a \<in> set (filterExternalUsers cfg attendees). \<exists>s. emailAddress a = Str s \<and> s \<noteq> []) \<and>
   ((\<exists>a \<in> set attendees. emailAddress a = Other) \<longrightarrow> filterExternalUsers cfg attendees = [])"
proof
  show "\<forall>a \<in> set (filterExternalUsers cfg attendees). \<exists>s. emailAddress a = Str s \<and> s \<noteq> []"
    using filterExternalUsers_eq [of cfg attendees] by (auto dest: keepAttendee_True)
next
  let ?keep = "keepAttendee (config_internalDomains cfg) (config_excludeRooms cfg)"
  show "(\<exists>a \<in> set attendees. emailAddress a = Other) \<longrightarrow> filterExternalUsers cfg attendees = []"
  proof
    assume "\<exists>a \<in> set attendees. emailAddress a = Other"
    then have "\<exists>a \<in> set attendees. \<exists>e. ?keep a = Inl e"
      using keepAttendee_Inl_iff by blast
    then obtain e where "filter_js ?keep attendees = Inl e"
      using filter_js_Inl_iff [of ?keep attendees] by blast
    then show "filterExternalUsers cfg attendees = []"
      by (simp add: filterExternalUsers_def)
  qed
qed

theorem filterExternalUsers_total_witness:
  "filterExternalUsers
     \<lparr>outlook = Some \<lparr>internalDomains = Some [''internal.com''], excludeRooms = Some True\<rparr>,
      powerAutomate = None\<rparr>
     [\<lparr>emailAddress = Str ''a@ext.com'', name = Undefined\<rparr>,
      \<lparr>emailAddress = Undefined, name = Str ''Nobody''\<rparr>,
      \<lparr>emailAddress = Str [], name = Str ''Empty''\<rparr>] =
     [\<lparr>emailAddress = Str ''a@ext.com'', name = Undefined\<rparr>] \<and>
   filterExternalUsers
     \<lparr>outlook = Some \<lparr>internalDomains = Some [''internal.com''], excludeRooms = Some True\<rparr>,
      powerAutomate = None\<rparr>
     [\<lparr>emailAddress = Str ''a@ext.com'', name = Undefined\<rparr>,
      \<lparr>emailAddress = Other, name = Undefined\<rparr>] = []"
proof -
  let ?cfg = "\<lparr>outlook = Some \<lparr>internalDomains = Some [''internal.com''], excludeRooms = Some True\<rparr>,
      powerAutomate = None\<rparr>"
  have "filterExternalUsers ?cfg
     [\<lparr>emailAddress = Str ''a@ext.com'', name = Undefined\<rparr>,
      \<lparr>emailAddress = Undefined, name = Str ''Nobody''\<rparr>,
      \<lparr>emailAddress = Str [], name = Str ''Empty''\<rparr>] =
     [\<lparr>emailAddress = Str ''a@ext.com'', name = Undefined\<rparr>]"
    by (simp add: eval_simps)
  moreover have "filterExternalUsers ?cfg
     [\<lparr>emailAddress = Str ''a@ext.com'', name = Undefined\<rparr>,
      \<lparr>emailAddress = Other, name = Undefined\<rparr>] = []"
    using filterExternalUsers_total [of ?cfg
        "[\<lparr>emailAddress = Str ''a@ext.com'', name = Undefined\<rparr>,
          \<lparr>emailAddress = Other, name = Undefined\<rparr>]"]
    by simp
  ultimately show ?thesis by simp
qed

subsection \<open>Retry\<close>

lemma executeWithRetry_rule_aux:
  "executeWithRetry rc timer operation n s = (r, s') \<Longrightarrow> I s \<Longrightarrow>
   \<forall>s e s1 d. I s \<longrightarrow> operation s = (Inl e, s1) \<longrightarrow> I (timer d s1) \<Longrightarrow>
   \<forall>s r s1. I s \<longrightarrow> operation s = (r, s1) \<longrightarrow> Q r s1 \<Longrightarrow> Q r s'"
proof (induction rc timer operation n s rule: executeWithRetry.induct)
  case (1 rc timer operation n s)
  note run = "1.prems"(1) and inv = "1.prems"(2) and step = "1.prems"(3) and fin = "1.prems"(4)
  obtain x s1 where op: "operation s = (x, s1)" by (cases "operation s")
  show ?case
  proof (cases x)
    case (Inr v)
    with op run have "r = Inr v" "s' = s1"
      by (simp_all add: executeWithRetry.simps [of rc timer operation n s])
    with fin inv op Inr show ?thesis by blast
  next
    case (Inl e)
    show ?thesis
    proof (cases "n < maxRetries rc")
      case True
      let ?d = "retryDelay rc * backoffMultiplier rc ^ n"
      from op Inl True run
      have rec: "executeWithRetry rc timer operation (n + 1) (timer ?d s1) = (r, s')"
        by (simp add: executeWithRetry.simps [of rc timer operation n s])
      have "I (timer ?d s1)" using step inv op Inl by blast
      from "1.IH" [OF op [symmetric] Inl True refl rec this step fin] show ?thesis .
    next
      case False
      with op Inl run have "r = Inl e" "s' = s1"
        by (simp_all add: executeWithRetry.simps [of rc timer operation n s])
      with fin inv op Inl show ?thesis by blast
    qed
  qed
qed

lemma executeWithRetry_rule:
  assumes "executeWithRetry rc timer operation n s = (r, s')"
    and "I s"
    and "\<And>s e s1 d. I s \<Longrightarrow> operation s = (Inl e, s1) \<Longrightarrow> I (timer d s1)"
    and "\<And>s r s1. I s \<Longrightarrow> operation s = (r, s1) \<Longrightarrow> Q r s1"
  shows "Q r s'"
  using executeWithRetry_rule_aux [of rc timer operation n s r s' I Q] assms by blast

lemma observedTimer_apply:
  "observedTimer timer d (s, rs, ds) = (timer d s, rs, ds @ [d])"
  by (simp add: observedTimer_def)

lemma observed_apply:
  "observed operation (s, rs, ds) = (case operation s of (r, s1) \<Rightarrow> (r, (s1, rs @ [r], ds)))"
  by (simp add: observed_def)

lemma observed_run:
  "executeWithRetry rc (observedTimer timer) (observed operation) n (s, rs0, ds0) = (r, (s', rs, ds)) \<Longrightarrow>
   \<exists>errs. rs = rs0 @ errs @ [r] \<and> (\<forall>x \<in> set errs. isl x) \<and>
     ds = ds0 @ map (\<lambda>i. retryDelay rc * backoffMultiplier rc ^ i) [n..<n + length errs] \<and>
     (errs \<noteq> [] \<longrightarrow> n + length errs \<le> maxRetries rc) \<and>
     (isl r \<longrightarrow> maxRetries rc \<le> n + length errs) \<and>
     executeWithRetry rc timer operation n s = (r, s')"
proof (induction rc timer operation n s arbitrary: rs0 ds0 rule: executeWithRetry.induct)
  case (1 rc timer operation n s)
  let ?run = "executeWithRetry rc (observedTimer timer) (observed operation)"
  let ?delay = "\<lambda>i. retryDelay rc * backoffMultiplier rc ^ i"
  obtain x s1 where op: "operation s = (x, s1)" by (cases "operation s")
  then have obs: "observed operation (s, rs0, ds0) = (x, (s1, rs0 @ [x], ds0))"
    by (simp add: observed_apply)
  show ?case
  proof (cases "isl x \<and> n < maxRetries rc")
    case False
    with obs "1.prems" have res: "r = x" "s' = s1" "rs = rs0 @ [x]" "ds = ds0"
      by (auto simp: executeWithRetry.simps [of rc "observedTimer timer" "observed operation" n "(s, rs0, ds0)"]
          split: sum.splits)
    from False op have plain: "executeWithRetry rc timer operation n s = (x, s1)"
      by (auto simp: executeWithRetry.simps [of rc timer operation n s] split: sum.splits)
    show ?thesis
      using res plain False by (intro exI [of _ "[]"]) auto
  next
    case True
    then obtain e where x: "x = Inl e" by (cases x) auto
    from True x obs "1.prems"
    have rec: "?run (n + 1) (timer (?delay n) s1, rs0 @ [x], ds0 @ [?delay n]) = (r, (s', rs, ds))"
      by (simp add: executeWithRetry.simps [of rc "observedTimer timer" "observed operation" n "(s, rs0, ds0)"]
          observedTimer_apply)
    from True have lt: "n < maxRetries rc" by simp
    from "1.IH" [OF op [symmetric] x lt refl rec]
    obtain errs where errs: "rs = (rs0 @ [x]) @ errs @ [r]" "\<forall>y \<in> set errs. isl y"
      "ds = (ds0 @ [?delay n]) @ map ?delay [n + 1..<n + 1 + length errs]"
      "errs \<noteq> [] \<longrightarrow> n + 1 + length errs \<le> maxRetries rc"
      "isl r \<longrightarrow> maxRetries rc \<le> n + 1 + length errs"
      "executeWithRetry rc timer operation (n + 1) (timer (?delay n) s1) = (r, s')"
      by blast
    have plain: "executeWithRetry rc timer operation n s = (r, s')"
      using op x lt errs(6) by (simp add: executeWithRetry.simps [of rc timer operation n s])
    have le: "n + length (x # errs) \<le> maxRetries rc"
      using errs(4) lt by (cases errs) auto
    have up: "[n..<n + length (x # errs)] = n # [n + 1..<n + 1 + length errs]"
      by (subst upt_rec) simp
    have ds: "ds = ds0 @ map ?delay [n..<n + length (x # errs)]"
      unfolding up using errs(3) by simp
    show ?thesis
      using errs(1,2,5) x plain le ds by (intro exI [of _ "x # errs"]) auto
  qed
qed

text \<open>
  Claim C6, as amended. A run of \<open>executeWithRetry\<close> from \<open>retryCount = 0\<close>, observed:
  the operation is invoked at least once and at most \<open>maxRetries + 1\<close> times (the first
  attempt and at most \<open>maxRetries\<close> retries); every invocation but the last one raised;
  before retry number \<open>i\<close> (from 0) the delay \<open>retryDelay * backoffMultiplier ^ i\<close> is
  awaited; the result is the result of the last invocation, and it is an error only
  after \<open>maxRetries + 1\<close> invocations. The observation does not change the run. Both
  clients have \<open>maxRetries = 3\<close> and \<open>backoffMultiplier = 2\<close>; \<open>retryDelay\<close> is 1000 for
  the store client and 2000 for the notification client.
\<close>

theorem executeWithRetry_backoff:
  assumes "executeWithRetry rc (observedTimer timer) (observed operation) 0 (s, [], []) =
             (r, (s', rs, ds))"
  shows "executeWithRetry rc timer operation 0 s = (r, s') \<and>
         1 \<le> length rs \<and> length rs \<le> maxRetries rc + 1 \<and> last rs = r \<and>
         (\<forall>x \<in> set (butlast rs). isl x) \<and>
         ds = map (\<lambda>i. retryDelay rc * backoffMultiplier rc ^ i) [0..<length rs - 1] \<and>
         (isl r \<longrightarrow> length rs = maxRetries rc + 1) \<and>
         maxRetries SharePointService_retryConfig = 3 \<and>
         retryDelay SharePointService_retryConfig = 1000 \<and>
         backoffMultiplier SharePointService_retryConfig = 2 \<and>
         maxRetries PowerAutomateService_retryConfig = 3 \<and>
         retryDelay PowerAutomateService_retryConfig = 2000 \<and>
         backoffMultiplier PowerAutomateService_retryConfig = 2"
proof -
  from observed_run [OF assms]
  obtain errs where errs: "rs = errs @ [r]" "\<forall>x \<in> set errs. isl x"
      "ds = map (\<lambda>i. retryDelay rc * backoffMultiplier rc ^ i) [0..<length errs]"
      "errs \<noteq> [] \<longrightarrow> length errs \<le> maxRetries rc"
      "isl r \<longrightarrow> maxRetries rc \<le> length errs"
      "executeWithRetry rc timer operation 0 s = (r, s')"
    by auto
  have "length errs \<le> maxRetries rc" using errs(4) by (cases errs) auto
  then show ?thesis
    using errs by (auto simp: SharePointService_retryConfig_def PowerAutomateService_retryConfig_def)
qed

theorem executeWithRetry_backoff_witness:
  "executeWithRetry PowerAutomateService_retryConfig (\<lambda>d s. s)
     (\<lambda>n::nat. (if n < 2 then Inl FetchFailed else Inr n, n + 1)) 0 0 = (Inr 2, 3) \<and>
   executeWithRetry PowerAutomateService_retryConfig (observedTimer (\<lambda>d s. s))
     (observed (\<lambda>n::nat. (if n < 2 then Inl FetchFailed else Inr n, n + 1))) 0 (0, [], []) =
     (Inr 2, (3, [Inl FetchFailed, Inl FetchFailed, Inr 2], [2000, 4000]))"
proof -
  have ev: "executeWithRetry PowerAutomateService_retryConfig (observedTimer (\<lambda>d s. s))
     (observed (\<lambda>n::nat. (if n < 2 then Inl FetchFailed else Inr n, n + 1))) 0 (0, [], []) =
     (Inr 2, (3, [Inl FetchFailed, Inl FetchFailed, Inr 2], [2000, 4000]))"
    by (simp add: executeWithRetry.simps observed_apply observedTimer_apply
        PowerAutomateService_retryConfig_def)
  from executeWithRetry_backoff [OF ev] ev show ?thesis
    by simp
qed

text \<open>
  Claim C6 as stated fails in the number of attempts: with \<open>maxRetries = 3\<close> an operation
  that always raises is invoked four times, after waits of 1000, 2000 and 4000.
\<close>

theorem executeWithRetry_attempts_counterexample:
  "executeWithRetry SharePointService_retryConfig (observedTimer (\<lambda>d s. s))
     (observed (\<lambda>s::unit. (Inl FetchFailed :: error + unit, s))) 0 ((), [], []) =
   (Inl FetchFailed, ((), [Inl FetchFailed, Inl FetchFailed, Inl FetchFailed, Inl FetchFailed],
      [1000, 2000, 4000])) \<and>
   maxRetries SharePointService_retryConfig = 3"
  by (simp add: executeWithRetry.simps observed_apply observedTimer_apply
      SharePointService_retryConfig_def)

subsection \<open>The store client\<close>

lemmas store_eval =
  updateVisitorRecords_def deleteVisitorRecords_def getVisitorRecordsByMeetingId_def
  getVisitorRecordsByMeetingId_operation_def getVisitorRecordsByMeetingId_response_def
  deleteListItem_def deleteListItem_operation_def deleteListItem_response_def
  createVisitorRecord_def createListItem_def createListItem_operation_def
  createListItem_response_def visitorRecord_def visitorNameOf_def formatDateTime_def
  split_at_first_def fetch_def ok_def sleep_def executeWithRetry.simps
  SharePointService_retryConfig_def issued_def

lemma requests_append [simp]: "requests (xs @ ys) = requests xs @ requests ys"
  by (induction xs rule: requests.induct) auto

lemma filter_ItemId_absent:
  "i \<notin> ItemId ` set xs \<Longrightarrow> filter (\<lambda>r. ItemId r \<noteq> i) xs = xs"
  by (induction xs) auto

lemma fetch_trace:
  "fetch rq w = (rs, w1) \<Longrightarrow> trace w1 = trace w @ [Sent rq rs]"
  by (auto simp: fetch_def split: list.splits option.splits prod.splits)

lemma fetch_fault:
  "faults w = Some f # fs \<Longrightarrow>
   fetch rq w = (fault_response f, w\<lparr>faults := fs, trace := trace w @ [Sent rq (fault_response f)]\<rparr>)"
  by (simp add: fetch_def)

lemma fetch_served:
  "faults w = [] \<or> hd (faults w) = None \<Longrightarrow>
   fetch rq w = (case serve rq w of (rs, w1) \<Rightarrow>
      (rs, w1\<lparr>faults := tl (faults w), trace := trace w @ [Sent rq rs]\<rparr>))"
  by (auto simp: fetch_def split: list.splits option.splits)

lemma fault_response_not_ok:
  "fault_response f = Response st b \<Longrightarrow> \<not> ok st \<and> st \<noteq> 404"
  by (cases f) (auto simp: ok_def)

lemma fault_raises:
  "\<exists>e. getVisitorRecordsByMeetingId_response (fault_response f) = Inl e"
  "\<exists>e. deleteListItem_response (fault_response f) = Inl e"
  "\<exists>e. createListItem_response (fault_response f) = Inl e"
  by (cases f; simp add: getVisitorRecordsByMeetingId_response_def deleteListItem_response_def
      createListItem_response_def ok_def)+

lemma fetch_either:
  "fetch rq w = (rs, w1) \<Longrightarrow>
   (\<exists>f. rs = fault_response f \<and> items w1 = items w) \<or>
   (\<exists>w0. serve rq w = (rs, w0) \<and> items w1 = items w0)"
  by (auto simp: fetch_def split: list.splits option.splits prod.splits)

lemma fetch_Get:
  assumes "fetch (GetItemsByMeetingId m) w = (rs, w1)"
  shows "items w1 = items w"
    and "getVisitorRecordsByMeetingId_response rs = Inr xs \<Longrightarrow>
         xs = filter (\<lambda>r. MeetingId (columns r) = m) (items w)"
proof -
  show "items w1 = items w"
    using fetch_either [OF assms] by auto
  show "xs = filter (\<lambda>r. MeetingId (columns r) = m) (items w)"
    if "getVisitorRecordsByMeetingId_response rs = Inr xs"
    using fetch_either [OF assms]
  proof
    assume "\<exists>f. rs = fault_response f \<and> items w1 = items w"
    with that fault_raises(1) show ?thesis by (metis sum.distinct(1))
  next
    assume "\<exists>w0. serve (GetItemsByMeetingId m) w = (rs, w0) \<and> items w1 = items w0"
    with that show ?thesis
      by (auto simp: getVisitorRecordsByMeetingId_response_def ok_def)
  qed
qed

lemma fetch_Delete:
  assumes "fetch (DeleteItem i) w = (rs, w1)"
  shows "deleteListItem_response rs = Inr b \<Longrightarrow> items w1 = filter (\<lambda>r. ItemId r \<noteq> i) (items w)"
    and "deleteListItem_response rs = Inl e \<Longrightarrow> items w1 = items w"
proof -
  show "items w1 = filter (\<lambda>r. ItemId r \<noteq> i) (items w)" if "deleteListItem_response rs = Inr b"
    using fetch_either [OF assms]
  proof
    assume "\<exists>f. rs = fault_response f \<and> items w1 = items w"
    with that fault_raises(2) show ?thesis by (metis sum.distinct(1))
  next
    assume "\<exists>w0. serve (DeleteItem i) w = (rs, w0) \<and> items w1 = items w0"
    then show ?thesis
      by (auto simp: filter_ItemId_absent split: if_splits)
  qed
  show "items w1 = items w" if "deleteListItem_response rs = Inl e"
    using fetch_either [OF assms] that
    by (auto simp: deleteListItem_response_def ok_def split: if_splits)
qed

lemma fetch_Create:
  assumes "fetch (CreateItem d) w = (rs, w1)"
  shows "createListItem_response rs = Inr r \<Longrightarrow> items w1 = items w @ [r] \<and> columns r = d"
    and "createListItem_response rs = Inl e \<Longrightarrow> items w1 = items w"
proof -
  show "items w1 = items w @ [r] \<and> columns r = d" if "createListItem_response rs = Inr r"
    using fetch_either [OF assms]
  proof
    assume "\<exists>f. rs = fault_response f \<and> items w1 = items w"
    with that fault_raises(3) show ?thesis by (metis sum.distinct(1))
  next
    assume "\<exists>w0. serve (CreateItem d) w = (rs, w0) \<and> items w1 = items w0"
    with that show ?thesis
      by (auto simp: createListItem_response_def Let_def ok_def)
  qed
  show "items w1 = items w" if "createListItem_response rs = Inl e"
    using fetch_either [OF assms] that
    by (auto simp: createListItem_response_def ok_def Let_def)
qed

lemma sleep_simps [simp]:
  "items (sleep d w) = items w" "trace (sleep d w) = trace w @ [Waited d]"
  "faults (sleep d w) = faults w" "nextId (sleep d w) = nextId w"
  by (simp_all add: sleep_def)

lemma only_rq_refl [simp]: "only_rq rq w w"
  by (simp add: only_rq_def)

lemma only_rq_sleep: "only_rq rq w w1 \<Longrightarrow> only_rq rq w (sleep d w1)"
  by (auto simp: only_rq_def)

lemma only_rq_fetch: "only_rq rq w w0 \<Longrightarrow> fetch rq w0 = (rs, w1) \<Longrightarrow>
  \<exists>tr. trace w1 = trace w @ tr \<and> set (requests tr) = {rq}"
  by (auto simp: only_rq_def dest!: fetch_trace)

lemma only_rq_fetch': "only_rq rq w w0 \<Longrightarrow> fetch rq w0 = (rs, w1) \<Longrightarrow> only_rq rq w w1"
  by (auto simp: only_rq_def dest!: fetch_trace)

lemma deleteListItem_effect:
  assumes "deleteListItem i w = (r, w')"
  shows "(case r of Inr b \<Rightarrow> items w' = filter (\<lambda>r. ItemId r \<noteq> i) (items w)
                  | Inl e \<Rightarrow> items w' = items w) \<and>
         (\<exists>tr. trace w' = trace w @ tr \<and> set (requests tr) = {DeleteItem i})"
proof (rule executeWithRetry_rule [where
      I = "\<lambda>s. items s = items w \<and> only_rq (DeleteItem i) w s" and
      Q = "\<lambda>r w'. (case r of Inr b \<Rightarrow> items w' = filter (\<lambda>r. ItemId r \<noteq> i) (items w)
                  | Inl e \<Rightarrow> items w' = items w) \<and>
         (\<exists>tr. trace w' = trace w @ tr \<and> set (requests tr) = {DeleteItem i})",
      OF assms [unfolded deleteListItem_def]])
  show "items w = items w \<and> only_rq (DeleteItem i) w w" by simp
next
  fix s e s1 d
  assume "items s = items w \<and> only_rq (DeleteItem i) w s" "deleteListItem_operation i s = (Inl e, s1)"
  then show "items (sleep d s1) = items w \<and> only_rq (DeleteItem i) w (sleep d s1)"
    by (auto simp: deleteListItem_operation_def split: prod.splits
        dest: fetch_Delete(2) only_rq_fetch' intro: only_rq_sleep)
next
  fix s r s1
  assume "items s = items w \<and> only_rq (DeleteItem i) w s" "deleteListItem_operation i s = (r, s1)"
  then show "(case r of Inr b \<Rightarrow> items s1 = filter (\<lambda>r. ItemId r \<noteq> i) (items w)
                  | Inl e \<Rightarrow> items s1 = items w) \<and>
         (\<exists>tr. trace s1 = trace w @ tr \<and> set (requests tr) = {DeleteItem i})"
    by (auto simp: deleteListItem_operation_def split: prod.splits sum.splits
        dest: fetch_Delete only_rq_fetch)
qed

lemma getVisitorRecordsByMeetingId_effect:
  assumes "getVisitorRecordsByMeetingId m w = (r, w')"
  shows "items w' = items w \<and>
         (\<forall>xs. r = Inr xs \<longrightarrow> xs = filter (\<lambda>x. MeetingId (columns x) = m) (items w)) \<and>
         (\<exists>tr. trace w' = trace w @ tr \<and> set (requests tr) = {GetItemsByMeetingId m})"
proof (rule executeWithRetry_rule [where
      I = "\<lambda>s. items s = items w \<and> only_rq (GetItemsByMeetingId m) w s" and
      Q = "\<lambda>r w'. items w' = items w \<and>
         (\<forall>xs. r = Inr xs \<longrightarrow> xs = filter (\<lambda>x. MeetingId (columns x) = m) (items w)) \<and>
         (\<exists>tr. trace w' = trace w @ tr \<and> set (requests tr) = {GetItemsByMeetingId m})",
      OF assms [unfolded getVisitorRecordsByMeetingId_def]])
  show "items w = items w \<and> only_rq (GetItemsByMeetingId m) w w" by simp
next
  fix s e s1 d
  assume "items s = items w \<and> only_rq (GetItemsByMeetingId m) w s"
    "getVisitorRecordsByMeetingId_operation m s = (Inl e, s1)"
  then show "items (sleep d s1) = items w \<and> only_rq (GetItemsByMeetingId m) w (sleep d s1)"
    by (auto simp: getVisitorRecordsByMeetingId_operation_def split: prod.splits
        dest: fetch_Get(1) only_rq_fetch' intro: only_rq_sleep)
next
  fix s r s1
  assume "items s = items w \<and> only_rq (GetItemsByMeetingId m) w s"
    "getVisitorRecordsByMeetingId_operation m s = (r, s1)"
  then show "items s1 = items w \<and>
         (\<forall>xs. r = Inr xs \<longrightarrow> xs = filter (\<lambda>x. MeetingId (columns x) = m) (items w)) \<and>
         (\<exists>tr. trace s1 = trace w @ tr \<and> set (requests tr) = {GetItemsByMeetingId m})"
    by (auto simp: getVisitorRecordsByMeetingId_operation_def split: prod.splits
        dest: fetch_Get only_rq_fetch)
qed

lemma createListItem_effect:
  assumes "createListItem d w = (r, w')"
  shows "(case r of Inr it \<Rightarrow> items w' = items w @ [it] \<and> columns it = d
                  | Inl e \<Rightarrow> items w' = items w) \<and>
         (\<exists>tr. trace w' = trace w @ tr \<and> set (requests tr) = {CreateItem d})"
proof (rule executeWithRetry_rule [where
      I = "\<lambda>s. items s = items w \<and> only_rq (CreateItem d) w s" and
      Q = "\<lambda>r w'. (case r of Inr it \<Rightarrow> items w' = items w @ [it] \<and> columns it = d
                  | Inl e \<Rightarrow> items w' = items w) \<and>
         (\<exists>tr. trace w' = trace w @ tr \<and> set (requests tr) = {CreateItem d})",
      OF assms [unfolded createListItem_def]])
  show "items w = items w \<and> only_rq (CreateItem d) w w" by simp
next
  fix s e s1 dl
  assume "items s = items w \<and> only_rq (CreateItem d) w s"
    "createListItem_operation d s = (Inl e, s1)"
  then show "items (sleep dl s1) = items w \<and> only_rq (CreateItem d) w (sleep dl s1)"
    by (auto simp: createListItem_operation_def split: prod.splits
        dest: fetch_Create(2) only_rq_fetch' intro: only_rq_sleep)
next
  fix s r s1
  assume "items s = items w \<and> only_rq (CreateItem d) w s"
    "createListItem_operation d s = (r, s1)"
  then show "(case r of Inr it \<Rightarrow> items s1 = items w @ [it] \<and> columns it = d
                  | Inl e \<Rightarrow> items s1 = items w) \<and>
         (\<exists>tr. trace s1 = trace w @ tr \<and> set (requests tr) = {CreateItem d})"
    by (auto simp: createListItem_operation_def split: prod.splits sum.splits
        dest: fetch_Create only_rq_fetch)
qed

lemma deleteListItems_effect:
  "deleteListItems rs w = (Inr u, w') \<Longrightarrow>
     items w' = filter (\<lambda>x. ItemId x \<notin> ItemId ` set rs) (items w) \<and>
     (\<exists>tr. trace w' = trace w @ tr \<and> set (requests tr) = DeleteItem ` ItemId ` set rs)"
proof (induction rs arbitrary: w)
  case Nil
  then show ?case by simp
next
  case (Cons r rs)
  from Cons.prems obtain b w1 where
    d: "deleteListItem (ItemId r) w = (Inr b, w1)" and rest: "deleteListItems rs w1 = (Inr u, w')"
    by (auto split: prod.splits sum.splits)
  from deleteListItem_effect [OF d] obtain tr1 where
    1: "items w1 = filter (\<lambda>x. ItemId x \<noteq> ItemId r) (items w)"
       "trace w1 = trace w @ tr1" "set (requests tr1) = {DeleteItem (ItemId r)}"
    by auto
  from Cons.IH [OF rest] obtain tr2 where
    2: "items w' = filter (\<lambda>x. ItemId x \<notin> ItemId ` set rs) (items w1)"
       "trace w' = trace w1 @ tr2" "set (requests tr2) = DeleteItem ` ItemId ` set rs"
    by auto
  have "items w' = filter (\<lambda>x. ItemId x \<notin> ItemId ` set (r # rs)) (items w)"
    using 1(1) 2(1) by (auto intro: filter_cong)
  moreover have "trace w' = trace w @ (tr1 @ tr2)" using 1(2) 2(2) by simp
  moreover have "set (requests (tr1 @ tr2)) = DeleteItem ` ItemId ` set (r # rs)"
    using 1(3) 2(3) by auto
  ultimately show ?case by blast
qed

lemma visitorRecord_Inr:
  "visitorRecord m t user st en now = Inr d \<Longrightarrow>
   MeetingId d = m \<and> VisitorEmail d = emailAddress user \<and> Status d = Scheduled"
  by (auto simp: visitorRecord_def split: sum.splits)

lemma createVisitorRecord_loop_effect:
  "createVisitorRecord_loop m t st en users recs w = (Inr out, w') \<Longrightarrow>
   \<exists>new tr. out = recs @ new \<and> items w' = items w @ new \<and>
     map (\<lambda>r. VisitorEmail (columns r)) new = map emailAddress users \<and>
     (\<forall>r \<in> set new. MeetingId (columns r) = m \<and> Status (columns r) = Scheduled) \<and>
     trace w' = trace w @ tr \<and> set (requests tr) = CreateItem ` columns ` set new"
proof (induction users arbitrary: recs w)
  case Nil
  then show ?case by simp
next
  case (Cons user users)
  from Cons.prems obtain d it w1 where
    d: "visitorRecord m t user st en (clock w) = Inr d" and
    c: "createListItem d w = (Inr it, w1)" and
    rest: "createVisitorRecord_loop m t st en users (recs @ [it]) w1 = (Inr out, w')"
    by (auto split: prod.splits sum.splits)
  from createListItem_effect [OF c] obtain tr1 where
    1: "items w1 = items w @ [it]" "columns it = d"
       "trace w1 = trace w @ tr1" "set (requests tr1) = {CreateItem d}"
    by auto
  from Cons.IH [OF rest] obtain new tr2 where
    2: "out = (recs @ [it]) @ new" "items w' = items w1 @ new"
       "map (\<lambda>r. VisitorEmail (columns r)) new = map emailAddress users"
       "\<forall>r \<in> set new. MeetingId (columns r) = m \<and> Status (columns r) = Scheduled"
       "trace w' = trace w1 @ tr2" "set (requests tr2) = CreateItem ` columns ` set new"
    by blast
  have "out = recs @ (it # new)" "items w' = items w @ (it # new)"
    "map (\<lambda>r. VisitorEmail (columns r)) (it # new) = map emailAddress (user # users)"
    "\<forall>r \<in> set (it # new). MeetingId (columns r) = m \<and> Status (columns r) = Scheduled"
    "trace w' = trace w @ (tr1 @ tr2)" "set (requests (tr1 @ tr2)) = CreateItem ` columns ` set (it # new)"
    using 1 2 visitorRecord_Inr [OF d] by auto
  then show ?case by blast
qed

lemma issued_append: "trace w' = trace w @ tr \<Longrightarrow> issued w w' = requests tr"
  by (simp add: issued_def)

lemma updateVisitorRecords_effect:
  assumes "updateVisitorRecords m t users st en w = (Inr recs, w')"
  shows "filter (\<lambda>x. MeetingId (columns x) = m) (items w') = recs"
    and "map (\<lambda>r. VisitorEmail (columns r)) recs = map emailAddress users"
    and "\<forall>r \<in> set recs. MeetingId (columns r) = m \<and> Status (columns r) = Scheduled"
    and "set (issued w w') = {GetItemsByMeetingId m} \<union>
           DeleteItem ` ItemId ` {r \<in> set (items w). MeetingId (columns r) = m} \<union>
           CreateItem ` columns ` set recs"
proof -
  let ?ex = "filter (\<lambda>x. MeetingId (columns x) = m) (items w)"
  from assms obtain existing w1 u w2 where
    g: "getVisitorRecordsByMeetingId m w = (Inr existing, w1)" and
    d: "deleteListItems existing w1 = (Inr u, w2)" and
    c: "if length users > 0 then createVisitorRecord m t users st en w2 = (Inr recs, w')
        else recs = [] \<and> w' = w2"
    by (auto simp: updateVisitorRecords_def split: prod.splits sum.splits if_splits)
  from getVisitorRecordsByMeetingId_effect [OF g] obtain tr1 where
    1: "items w1 = items w" "existing = ?ex" "trace w1 = trace w @ tr1"
       "set (requests tr1) = {GetItemsByMeetingId m}"
    by auto
  from deleteListItems_effect [OF d] obtain tr2 where
    2: "items w2 = filter (\<lambda>x. ItemId x \<notin> ItemId ` set existing) (items w1)"
       "trace w2 = trace w1 @ tr2" "set (requests tr2) = DeleteItem ` ItemId ` set existing"
    by auto
  have "createVisitorRecord_loop m t st en users [] w2 = (Inr recs, w')"
    using c by (cases users) (auto simp: createVisitorRecord_def)
  from createVisitorRecord_loop_effect [OF this] obtain tr3 where
    3: "items w' = items w2 @ recs"
       "map (\<lambda>r. VisitorEmail (columns r)) recs = map emailAddress users"
       "\<forall>r \<in> set recs. MeetingId (columns r) = m \<and> Status (columns r) = Scheduled"
       "trace w' = trace w2 @ tr3" "set (requests tr3) = CreateItem ` columns ` set recs"
    by auto
  show "map (\<lambda>r. VisitorEmail (columns r)) recs = map emailAddress users" by (rule 3(2))
  show "\<forall>r \<in> set recs. MeetingId (columns r) = m \<and> Status (columns r) = Scheduled" by (rule 3(3))
  have "trace w' = trace w @ (tr1 @ tr2 @ tr3)" using 1(3) 2(2) 3(4) by simp
  from issued_append [OF this]
  show "set (issued w w') = {GetItemsByMeetingId m} \<union>
           DeleteItem ` ItemId ` {r \<in> set (items w). MeetingId (columns r) = m} \<union>
           CreateItem ` columns ` set recs"
    using 1(2,4) 2(3) 3(5) by auto
  have "filter (\<lambda>x. MeetingId (columns x) = m) (items w2) = []"
    unfolding 2(1) 1(1) 1(2) by (auto simp: filter_empty_conv)
  then show "filter (\<lambda>x. MeetingId (columns x) = m) (items w') = recs"
    using 3(1,3) by (auto simp: filter_id_conv)
qed

text \<open>
  Claim C8. Removing is idempotent: a response with status 404 makes \<open>deleteListItem\<close>
  return \<open>false\<close> without raising, a success status makes it return \<open>true\<close>, and every
  other status raises an error with that status. Removing an item that the list does not
  hold returns normally after one request and leaves the list as it is; when the first
  attempt and the three retries are all hit by a fault the error is raised and the list
  is unchanged.
\<close>

theorem deleteListItem_idempotent:
  "deleteListItem_response (Response 404 b) = Inr False \<and>
   (ok st \<longrightarrow> deleteListItem_response (Response st b) = Inr True) \<and>
   (\<not> ok st \<and> st \<noteq> 404 \<longrightarrow> deleteListItem_response (Response st b) = Inl (HttpError st)) \<and>
   (i \<notin> ItemId ` set (items w) \<and> (faults w = [] \<or> hd (faults w) = None) \<longrightarrow>
      deleteListItem i w =
        (Inr False, w\<lparr>faults := tl (faults w),
                      trace := trace w @ [Sent (DeleteItem i) (Response 404 NoBody)]\<rparr>)) \<and>
   (faults w = Some f1 # Some f2 # Some f3 # Some f4 # fs \<longrightarrow>
      (\<exists>e. fst (deleteListItem i w) = Inl e) \<and>
      items (snd (deleteListItem i w)) = items w)"
proof (intro conjI impI)
  show "deleteListItem_response (Response 404 b) = Inr False"
    by (simp add: deleteListItem_response_def ok_def)
  show "deleteListItem_response (Response st b) = Inr True" if "ok st"
    using that by (simp add: deleteListItem_response_def)
  show "deleteListItem_response (Response st b) = Inl (HttpError st)" if "\<not> ok st \<and> st \<noteq> 404"
    using that by (simp add: deleteListItem_response_def)
  show "deleteListItem i w =
        (Inr False, w\<lparr>faults := tl (faults w),
                      trace := trace w @ [Sent (DeleteItem i) (Response 404 NoBody)]\<rparr>)"
    if "i \<notin> ItemId ` set (items w) \<and> (faults w = [] \<or> hd (faults w) = None)"
  proof -
    from that have "fetch (DeleteItem i) w =
        (Response 404 NoBody, w\<lparr>faults := tl (faults w),
                      trace := trace w @ [Sent (DeleteItem i) (Response 404 NoBody)]\<rparr>)"
      by (auto simp: fetch_def split: list.splits option.splits)
    then show ?thesis
      by (simp add: deleteListItem_def deleteListItem_operation_def deleteListItem_response_def
          ok_def executeWithRetry.simps)
  qed
next
  assume f: "faults w = Some f1 # Some f2 # Some f3 # Some f4 # fs"
  obtain e1 e2 e3 e4 where e:
    "deleteListItem_response (fault_response f1) = Inl e1"
    "deleteListItem_response (fault_response f2) = Inl e2"
    "deleteListItem_response (fault_response f3) = Inl e3"
    "deleteListItem_response (fault_response f4) = Inl e4"
    using fault_raises(2) by metis
  have run: "deleteListItem i w = (Inl e4, snd (deleteListItem i w))"
    using f e
    by (simp add: deleteListItem_def deleteListItem_operation_def fetch_def sleep_def
        executeWithRetry.simps SharePointService_retryConfig_def)
  then show "\<exists>e. fst (deleteListItem i w) = Inl e"
    by (metis fst_conv)
  from deleteListItem_effect [OF run] show "items (snd (deleteListItem i w)) = items w"
    by simp
qed

theorem deleteListItem_idempotent_witness:
  "deleteListItem 9
     \<lparr>items = [\<lparr>ItemId = 7, columns = \<lparr>MeetingId = ''m1'', MeetingTitle = ''Visit'',
         VisitorEmail = Str ''a@ext.com'', VisitorName = Str ''a'', StartTime = None,
         EndTime = None, Status = Scheduled, CreatedDate = None, ModifiedDate = None\<rparr>\<rparr>],
      nextId = 8, clock = 0, seed = 0, faults = [], trace = []\<rparr> =
   (Inr False,
     \<lparr>items = [\<lparr>ItemId = 7, columns = \<lparr>MeetingId = ''m1'', MeetingTitle = ''Visit'',
         VisitorEmail = Str ''a@ext.com'', VisitorName = Str ''a'', StartTime = None,
         EndTime = None, Status = Scheduled, CreatedDate = None, ModifiedDate = None\<rparr>\<rparr>],
      nextId = 8, clock = 0, seed = 0, faults = [],
      trace = [Sent (DeleteItem 9) (Response 404 NoBody)]\<rparr>) \<and>
   deleteListItem_response (Response 500 NoBody) = Inl (HttpError 500) \<and>
   deleteListItem_response (Response 204 NoBody) = Inr True \<and>
   (\<exists>e. fst (deleteListItem 7
     \<lparr>items = [\<lparr>ItemId = 7, columns = \<lparr>MeetingId = ''m1'', MeetingTitle = ''Visit'',
         VisitorEmail = Str ''a@ext.com'', VisitorName = Str ''a'', StartTime = None,
         EndTime = None, Status = Scheduled, CreatedDate = None, ModifiedDate = None\<rparr>\<rparr>],
      nextId = 8, clock = 0, seed = 0,
      faults = [Some ServerError, Some ServerError, Some Throttled, Some ServiceUnavailable],
      trace = []\<rparr>) = Inl e)"
  using deleteListItem_idempotent [of NoBody 500 9
     "\<lparr>items = [\<lparr>ItemId = 7, columns = \<lparr>MeetingId = ''m1'', MeetingTitle = ''Visit'',
         VisitorEmail = Str ''a@ext.com'', VisitorName = Str ''a'', StartTime = None,
         EndTime = None, Status = Scheduled, CreatedDate = None, ModifiedDate = None\<rparr>\<rparr>],
      nextId = 8, clock = 0, seed = 0, faults = [], trace = []\<rparr>" ServerError ServerError Throttled ServiceUnavailable "[]"]
    deleteListItem_idempotent [of NoBody 204 7
     "\<lparr>items = [\<lparr>ItemId = 7, columns = \<lparr>MeetingId = ''m1'', MeetingTitle = ''Visit'',
         VisitorEmail = Str ''a@ext.com'', VisitorName = Str ''a'', StartTime = None,
         EndTime = None, Status = Scheduled, CreatedDate = None, ModifiedDate = None\<rparr>\<rparr>],
      nextId = 8, clock = 0, seed = 0,
      faults = [Some ServerError, Some ServerError, Some Throttled, Some ServiceUnavailable],
      trace = []\<rparr>" ServerError ServerError Throttled ServiceUnavailable "[]"]
  by (simp add: ok_def)

text \<open>
  Claim C1, as amended. After \<open>updateVisitorRecords\<close> has returned normally, the items of
  the list with this \<open>meetingId\<close> are exactly the records it returns: one record with
  status \<open>Scheduled\<close> for each entry of \<open>externalUsers\<close>, in order, with that entry's
  address. The records map 1:1 onto the distinct addresses only when no address is
  repeated in \<open>externalUsers\<close>; nothing deduplicates them.
\<close>

theorem updateVisitorRecords_one_record_per_entry:
  assumes "updateVisitorRecords m title users st en w = (Inr recs, w')"
  shows "filter (\<lambda>r. MeetingId (columns r) = m) (items w') = recs \<and>
         map (\<lambda>r. VisitorEmail (columns r)) recs = map emailAddress users \<and>
         (\<forall>r \<in> set recs. Status (columns r) = Scheduled)"
  using updateVisitorRecords_effect(1,2,3) [OF assms] by simp

theorem updateVisitorRecords_one_record_per_entry_witness:
  "fst (updateVisitorRecords ''m1'' ''Visit''
         [\<lparr>emailAddress = Str ''a@ext.com'', name = Undefined\<rparr>,
          \<lparr>emailAddress = Str ''d@ext.com'', name = Str ''Dee''\<rparr>]
         (Instant 100) (Instant 200)
         \<lparr>items = [\<lparr>ItemId = 1, columns = \<lparr>MeetingId = ''m1'', MeetingTitle = ''Visit'',
              VisitorEmail = Str ''c@ext.com'', VisitorName = Str ''c'', StartTime = None,
              EndTime = None, Status = Scheduled, CreatedDate = None, ModifiedDate = None\<rparr>\<rparr>],
           nextId = 2, clock = 5, seed = 0, faults = [Some ServerError], trace = []\<rparr>) =
     Inr [\<lparr>ItemId = 2, columns = \<lparr>MeetingId = ''m1'', MeetingTitle = ''Visit'',
              VisitorEmail = Str ''a@ext.com'', VisitorName = Str ''a'', StartTime = Some 100,
              EndTime = Some 200, Status = Scheduled, CreatedDate = Some 1005,
              ModifiedDate = Some 1005\<rparr>\<rparr>,
          \<lparr>ItemId = 3, columns = \<lparr>MeetingId = ''m1'', MeetingTitle = ''Visit'',
              VisitorEmail = Str ''d@ext.com'', VisitorName = Str ''Dee'', StartTime = Some 100,
              EndTime = Some 200, Status = Scheduled, CreatedDate = Some 1005,
              ModifiedDate = Some 1005\<rparr>\<rparr>] \<and>
   map (\<lambda>r. VisitorEmail (columns r))
     (filter (\<lambda>r. MeetingId (columns r) = ''m1'')
       (items (snd (updateVisitorRecords ''m1'' ''Visit''
         [\<lparr>emailAddress = Str ''a@ext.com'', name = Undefined\<rparr>,
          \<lparr>emailAddress = Str ''d@ext.com'', name = Str ''Dee''\<rparr>]
         (Instant 100) (Instant 200)
         \<lparr>items = [\<lparr>ItemId = 1, columns = \<lparr>MeetingId = ''m1'', MeetingTitle = ''Visit'',
              VisitorEmail = Str ''c@ext.com'', VisitorName = Str ''c'', StartTime = None,
              EndTime = None, Status = Scheduled, CreatedDate = None, ModifiedDate = None\<rparr>\<rparr>],
           nextId = 2, clock = 5, seed = 0, faults = [Some ServerError], trace = []\<rparr>)))) =
   [Str ''a@ext.com'', Str ''d@ext.com'']"
proof -
  let ?run = "updateVisitorRecords ''m1'' ''Visit''
         [\<lparr>emailAddress = Str ''a@ext.com'', name = Undefined\<rparr>,
          \<lparr>emailAddress = Str ''d@ext.com'', name = Str ''Dee''\<rparr>]
         (Instant 100) (Instant 200)
         \<lparr>items = [\<lparr>ItemId = 1, columns = \<lparr>MeetingId = ''m1'', MeetingTitle = ''Visit'',
              VisitorEmail = Str ''c@ext.com'', VisitorName = Str ''c'', StartTime = None,
              EndTime = None, Status = Scheduled, CreatedDate = None, ModifiedDate = None\<rparr>\<rparr>],
           nextId = 2, clock = 5, seed = 0, faults = [Some ServerError], trace = []\<rparr>"
  let ?recs = "[\<lparr>ItemId = 2, columns = \<lparr>MeetingId = ''m1'', MeetingTitle = ''Visit'',
              VisitorEmail = Str ''a@ext.com'', VisitorName = Str ''a'', StartTime = Some 100,
              EndTime = Some 200, Status = Scheduled, CreatedDate = Some 1005,
              ModifiedDate = Some 1005\<rparr>\<rparr>,
          \<lparr>ItemId = 3, columns = \<lparr>MeetingId = ''m1'', MeetingTitle = ''Visit'',
              VisitorEmail = Str ''d@ext.com'', VisitorName = Str ''Dee'', StartTime = Some 100,
              EndTime = Some 200, Status = Scheduled, CreatedDate = Some 1005,
              ModifiedDate = Some 1005\<rparr>\<rparr>]"
  have ev: "fst ?run = Inr ?recs"
    by (simp add: store_eval truthy_def Let_def)
  then have "?run = (Inr ?recs, snd ?run)"
    by (metis prod.collapse)
  from updateVisitorRecords_one_record_per_entry [OF this] ev show ?thesis
    by simp
qed

text \<open>
  Claim C1 as stated fails: an attendee list with the same address twice is classified
  into two entries and reconciled into two \<open>Scheduled\<close> records with that address.
\<close>

theorem updateVisitorRecords_duplicate_counterexample:
  "map (\<lambda>r. (VisitorEmail (columns r), Status (columns r)))
     (filter (\<lambda>r. MeetingId (columns r) = ''m1'')
       (items (snd (updateVisitorRecords ''m1'' ''Visit''
         (filterExternalUsers
            \<lparr>outlook = Some \<lparr>internalDomains = Some [''internal.com''], excludeRooms = Some True\<rparr>,
             powerAutomate = None\<rparr>
            [\<lparr>emailAddress = Str ''a@ext.com'', name = Str ''Ann''\<rparr>,
             \<lparr>emailAddress = Str ''a@ext.com'', name = Str ''Ann''\<rparr>])
         NoDate NoDate
         \<lparr>items = [], nextId = 0, clock = 5, seed = 0, faults = [], trace = []\<rparr>)))) =
   [(Str ''a@ext.com'', Scheduled), (Str ''a@ext.com'', Scheduled)] \<and>
   isl (fst (updateVisitorRecords ''m1'' ''Visit''
         (filterExternalUsers
            \<lparr>outlook = Some \<lparr>internalDomains = Some [''internal.com''], excludeRooms = Some True\<rparr>,
             powerAutomate = None\<rparr>
            [\<lparr>emailAddress = Str ''a@ext.com'', name = Str ''Ann''\<rparr>,
             \<lparr>emailAddress = Str ''a@ext.com'', name = Str ''Ann''\<rparr>])
         NoDate NoDate
         \<lparr>items = [], nextId = 0, clock = 5, seed = 0, faults = [], trace = []\<rparr>)) = False"
  by (simp add: store_eval eval_simps)

text \<open>
  Claim C2, as amended. \<open>updateVisitorRecords\<close> computes no difference. When it returns
  normally, the requests it has issued (retries included) are the query for the meeting's
  items, a delete for every item the list held for the meeting, and a create for every
  record it returns, one for each entry of \<open>externalUsers\<close>: a participant that is both
  in the list and wanted is removed and created again.
\<close>

theorem updateVisitorRecords_requests:
  assumes "updateVisitorRecords m title users st en w = (Inr recs, w')"
  shows "set (issued w w') =
           {GetItemsByMeetingId m} \<union>
           DeleteItem ` ItemId ` {r \<in> set (items w). MeetingId (columns r) = m} \<union>
           CreateItem ` columns ` set recs \<and>
         map (\<lambda>r. VisitorEmail (columns r)) recs = map emailAddress users"
  using updateVisitorRecords_effect(2,4) [OF assms] by simp

theorem updateVisitorRecords_requests_witness:
  "issued
     \<lparr>items = [\<lparr>ItemId = 1, columns = \<lparr>MeetingId = ''m1'', MeetingTitle = ''Visit'',
          VisitorEmail = Str ''c@ext.com'', VisitorName = Str ''c'', StartTime = None,
          EndTime = None, Status = Scheduled, CreatedDate = None, ModifiedDate = None\<rparr>\<rparr>],
       nextId = 2, clock = 5, seed = 0, faults = [None, Some Throttled], trace = []\<rparr>
     (snd (updateVisitorRecords ''m1'' ''Visit''
         [\<lparr>emailAddress = Str ''d@ext.com'', name = Str ''Dee''\<rparr>] NoDate NoDate
         \<lparr>items = [\<lparr>ItemId = 1, columns = \<lparr>MeetingId = ''m1'', MeetingTitle = ''Visit'',
              VisitorEmail = Str ''c@ext.com'', VisitorName = Str ''c'', StartTime = None,
              EndTime = None, Status = Scheduled, CreatedDate = None, ModifiedDate = None\<rparr>\<rparr>],
           nextId = 2, clock = 5, seed = 0, faults = [None, Some Throttled], trace = []\<rparr>)) =
     [GetItemsByMeetingId ''m1'', DeleteItem 1, DeleteItem 1,
      CreateItem \<lparr>MeetingId = ''m1'', MeetingTitle = ''Visit'',
          VisitorEmail = Str ''d@ext.com'', VisitorName = Str ''Dee'', StartTime = None,
          EndTime = None, Status = Scheduled, CreatedDate = Some 1005,
          ModifiedDate = Some 1005\<rparr>] \<and>
   fst (updateVisitorRecords ''m1'' ''Visit''
         [\<lparr>emailAddress = Str ''d@ext.com'', name = Str ''Dee''\<rparr>] NoDate NoDate
         \<lparr>items = [\<lparr>ItemId = 1, columns = \<lparr>MeetingId = ''m1'', MeetingTitle = ''Visit'',
              VisitorEmail = Str ''c@ext.com'', VisitorName = Str ''c'', StartTime = None,
              EndTime = None, Status = Scheduled, CreatedDate = None, ModifiedDate = None\<rparr>\<rparr>],
           nextId = 2, clock = 5, seed = 0, faults = [None, Some Throttled], trace = []\<rparr>) =
     Inr [\<lparr>ItemId = 2, columns = \<lparr>MeetingId = ''m1'', MeetingTitle = ''Visit'',
          VisitorEmail = Str ''d@ext.com'', VisitorName = Str ''Dee'', StartTime = None,
          EndTime = None, Status = Scheduled, CreatedDate = Some 1005,
          ModifiedDate = Some 1005\<rparr>\<rparr>]"
proof -
  let ?w = "\<lparr>items = [\<lparr>ItemId = 1, columns = \<lparr>MeetingId = ''m1'', MeetingTitle = ''Visit'',
          VisitorEmail = Str ''c@ext.com'', VisitorName = Str ''c'', StartTime = None,
          EndTime = None, Status = Scheduled, CreatedDate = None, ModifiedDate = None\<rparr>\<rparr>],
       nextId = 2, clock = 5, seed = 0, faults = [None, Some Throttled], trace = []\<rparr>"
  let ?run = "updateVisitorRecords ''m1'' ''Visit''
         [\<lparr>emailAddress = Str ''d@ext.com'', name = Str ''Dee''\<rparr>] NoDate NoDate ?w"
  let ?recs = "[\<lparr>ItemId = 2, columns = \<lparr>MeetingId = ''m1'', MeetingTitle = ''Visit'',
          VisitorEmail = Str ''d@ext.com'', VisitorName = Str ''Dee'', StartTime = None,
          EndTime = None, Status = Scheduled, CreatedDate = Some 1005,
          ModifiedDate = Some 1005\<rparr>\<rparr>]"
  have ev: "fst ?run = Inr ?recs"
    by (simp add: store_eval truthy_def Let_def)
  have tr: "issued ?w (snd ?run) =
     [GetItemsByMeetingId ''m1'', DeleteItem 1, DeleteItem 1,
      CreateItem \<lparr>MeetingId = ''m1'', MeetingTitle = ''Visit'',
          VisitorEmail = Str ''d@ext.com'', VisitorName = Str ''Dee'', StartTime = None,
          EndTime = None, Status = Scheduled, CreatedDate = Some 1005,
          ModifiedDate = Some 1005\<rparr>]"
    by (simp add: store_eval truthy_def Let_def)
  from ev have "?run = (Inr ?recs, snd ?run)"
    by (metis prod.collapse)
  from updateVisitorRecords_requests [OF this] ev tr show ?thesis
    by simp
qed

text \<open>
  Claim C2 as stated fails on its own example: with records for \<open>a@ext.com\<close> and
  \<open>c@ext.com\<close> in the list and \<open>a@ext.com\<close> and \<open>d@ext.com\<close> wanted, both records are
  removed and both participants are created; \<open>a@ext.com\<close> is not left untouched.
\<close>

theorem updateVisitorRecords_requests_counterexample:
  "issued
     \<lparr>items = [\<lparr>ItemId = 1, columns = \<lparr>MeetingId = ''m1'', MeetingTitle = ''Visit'',
          VisitorEmail = Str ''a@ext.com'', VisitorName = Str ''a'', StartTime = None,
          EndTime = None, Status = Scheduled, CreatedDate = None, ModifiedDate = None\<rparr>\<rparr>,
        \<lparr>ItemId = 2, columns = \<lparr>MeetingId = ''m1'', MeetingTitle = ''Visit'',
          VisitorEmail = Str ''c@ext.com'', VisitorName = Str ''c'', StartTime = None,
          EndTime = None, Status = Scheduled, CreatedDate = None, ModifiedDate = None\<rparr>\<rparr>],
       nextId = 3, clock = 5, seed = 0, faults = [], trace = []\<rparr>
     (snd (updateVisitorRecords ''m1'' ''Visit''
         [\<lparr>emailAddress = Str ''a@ext.com'', name = Undefined\<rparr>,
          \<lparr>emailAddress = Str ''d@ext.com'', name = Undefined\<rparr>] NoDate NoDate
         \<lparr>items = [\<lparr>ItemId = 1, columns = \<lparr>MeetingId = ''m1'', MeetingTitle = ''Visit'',
              VisitorEmail = Str ''a@ext.com'', VisitorName = Str ''a'', StartTime = None,
              EndTime = None, Status = Scheduled, CreatedDate = None, ModifiedDate = None\<rparr>\<rparr>,
            \<lparr>ItemId = 2, columns = \<lparr>MeetingId = ''m1'', MeetingTitle = ''Visit'',
              VisitorEmail = Str ''c@ext.com'', VisitorName = Str ''c'', StartTime = None,
              EndTime = None, Status = Scheduled, CreatedDate = None, ModifiedDate = None\<rparr>\<rparr>],
           nextId = 3, clock = 5, seed = 0, faults = [], trace = []\<rparr>)) =
     [GetItemsByMeetingId ''m1'', DeleteItem 1, DeleteItem 2,
      CreateItem \<lparr>MeetingId = ''m1'', MeetingTitle = ''Visit'',
          VisitorEmail = Str ''a@ext.com'', VisitorName = Str ''a'', StartTime = None,
          EndTime = None, Status = Scheduled, CreatedDate = Some 5, ModifiedDate = Some 5\<rparr>,
      CreateItem \<lparr>MeetingId = ''m1'', MeetingTitle = ''Visit'',
          VisitorEmail = Str ''d@ext.com'', VisitorName = Str ''d'', StartTime = None,
          EndTime = None, Status = Scheduled, CreatedDate = Some 5, ModifiedDate = Some 5\<rparr>]"
  by (simp add: store_eval truthy_def Let_def)

subsection \<open>The notification client\<close>


lemma notified_append [simp]: "notified (xs @ ys) = notified xs @ notified ys"
  by (induction xs rule: notified.induct) auto







subsection \<open>Change triggers, the manual command and cycles in flight\<close>










text \<open>
  The warning path returns inside \<open>try\<close>, so the \<open>finally\<close> block runs: a dropped trigger
  clears the flag although the first cycle is still in flight.
\<close>

lemma busy_return_clears_flag:
  "isProcessing (taskpane rt) \<Longrightarrow> externalUsers ed \<noteq> [] \<Longrightarrow>
   isProcessing (taskpane (step cfg rt (Trigger changeType ed))) = False"
  by (simp add: processVisitors_enter_def processVisitors_finally_def showMessage_def)

end
